theory Spec2Isabelle
  imports Complex_Main
begin

section \<open>JavaScript string primitives\<close>

text \<open>
  Strings are lists of \<^typ>\<open>char\<close>: the model covers the code units below 256.
  In that range the regular-expression class \<open>\s\<close> and \<open>String.prototype.trim\<close>
  agree on tab, line feed, vertical tab, form feed, carriage return, space and the
  no-break space; the class \<open>.\<close> excludes the line terminators line feed and
  carriage return.
\<close>

definition isWs :: "char \<Rightarrow> bool" where
  "isWs c = (c \<in> {CHR 0x09, CHR 0x0A, CHR 0x0B, CHR 0x0C, CHR 0x0D, CHR 0x20, CHR 0xA0})"

definition isLineTerminator :: "char \<Rightarrow> bool" where
  "isLineTerminator c = (c = CHR 0x0A \<or> c = CHR 0x0D)"

text \<open>\<open>s.split(c)\<close> for a one-character separator.\<close>

fun splitOn :: "char \<Rightarrow> string \<Rightarrow> string list" where
  "splitOn c [] = [[]]"
| "splitOn c (x # xs) =
     (let r = splitOn c xs in if x = c then [] # r else (x # hd r) # tl r)"

text \<open>\<open>xs.join(sep)\<close>.\<close>

fun joinWith :: "string \<Rightarrow> string list \<Rightarrow> string" where
  "joinWith sep [] = []"
| "joinWith sep [x] = x"
| "joinWith sep (x # y # ys) = x @ sep @ joinWith sep (y # ys)"

definition trim :: "string \<Rightarrow> string" where
  "trim s = rev (dropWhile isWs (rev (dropWhile isWs s)))"

text \<open>
  \<open>s.split(/\s+/)\<close>: the pieces between maximal runs of white space; a leading or a
  trailing run leaves an empty piece at that end.
\<close>

function splitWs :: "string \<Rightarrow> string list" where
  "splitWs s =
     (let tok = takeWhile (\<lambda>c. \<not> isWs c) s; rest = dropWhile (\<lambda>c. \<not> isWs c) s
      in if rest = [] then [tok] else tok # splitWs (dropWhile isWs rest))"
  by pat_completeness auto
termination
proof (relation "measure length")
  show "wf (measure length)" by simp
next
  fix s :: string and tok rest
  assume r: "rest = dropWhile (\<lambda>c. \<not> isWs c) s" and ne: "rest \<noteq> []"
  have "length (dropWhile isWs rest) < length rest"
  proof (cases rest)
    case Nil
    with ne show ?thesis by simp
  next
    case (Cons c cs)
    with r have "isWs c"
      by (metis hd_dropWhile list.sel(1) list.distinct(1))
    with Cons have "length (dropWhile isWs rest) \<le> length cs"
      by (simp add: length_dropWhile_le)
    with Cons show ?thesis by simp
  qed
  moreover have "length rest \<le> length s"
    using r by (simp add: length_dropWhile_le)
  ultimately show "(dropWhile isWs rest, s) \<in> measure length" by simp
qed

declare splitWs.simps [simp del]

text \<open>\<open>line.replace(/#.*$/, '')\<close>: the leftmost \<open>#\<close> that no line terminator
  follows, and everything after it, is removed. The expression has no \<open>m\<close> flag, so
  \<open>$\<close> is the end of the string, and \<open>.\<close> does not cross a line terminator.\<close>

fun stripComment :: "string \<Rightarrow> string" where
  "stripComment [] = []"
| "stripComment (c # cs) =
     (if c = CHR ''#'' \<and> list_all (\<lambda>d. \<not> isLineTerminator d) cs then []
      else c # stripComment cs)"

text \<open>\<open>n.toString()\<close> for a non-negative integer.\<close>

definition digitChar :: "nat \<Rightarrow> char" where
  "digitChar d = char_of (48 + d)"

function showNat :: "nat \<Rightarrow> string" where
  "showNat n = (if n < 10 then [digitChar n] else showNat (n div 10) @ [digitChar (n mod 10)])"
  by pat_completeness auto
termination
  by (relation "measure id") auto

declare showNat.simps [simp del]

section \<open>The tree model\<close>

datatype JuniperNode =
  JuniperNode (node_type: string) (node_name: "string option") (node_value: "string option")
    (node_children: "JuniperNode list")

definition createNode ::
  "string \<Rightarrow> string option \<Rightarrow> string option \<Rightarrow> JuniperNode list \<Rightarrow> JuniperNode" where
  "createNode t n v cs = JuniperNode t n v cs"

section \<open>The parser\<close>

text \<open>The three line patterns of \<open>parseBlock\<close>.\<close>

text \<open>\<open>/^(\S+)\s+(<[^>]+>)\s+{$/\<close>: no atom of this expression can give a character
  back to its successor, so the match is read off from left to right.\<close>

definition patternBlockMatch :: "string \<Rightarrow> (string \<times> string) option" where
  "patternBlockMatch line =
     (let blockType = takeWhile (\<lambda>c. \<not> isWs c) line;
          r1 = dropWhile (\<lambda>c. \<not> isWs c) line;
          r2 = dropWhile isWs r1
      in if blockType = [] \<or> r1 = [] \<or> r2 = [] \<or> hd r2 \<noteq> CHR ''<'' then None
         else
           let body = takeWhile (\<lambda>c. c \<noteq> CHR ''>'') (tl r2);
               r3 = dropWhile (\<lambda>c. c \<noteq> CHR ''>'') (tl r2)
           in if body = [] \<or> r3 = [] then None
              else
                let r4 = tl r3
                in if r4 \<noteq> [] \<and> isWs (hd r4) \<and> dropWhile isWs r4 = ''{''
                   then Some (blockType, CHR ''<'' # body @ ''>'')
                   else None)"

text \<open>\<open>/^(.+)\s+{$/\<close>: the group is greedy, so the longest prefix free of line
  terminators that leaves at least one white-space character before the final brace.\<close>

definition multiWordBlockMatch :: "string \<Rightarrow> string option" where
  "multiWordBlockMatch line =
     (if line \<noteq> [] \<and> last line = CHR ''{'' then
        let p = butlast line
        in map_option (\<lambda>k. take k p)
             (find (\<lambda>k. list_all (\<lambda>c. \<not> isLineTerminator c) (take k p) \<and>
                         list_all isWs (drop k p))
                   (rev [1..<length p]))
      else None)"

text \<open>\<open>/^(.+);$/\<close>.\<close>

definition leafMatch :: "string \<Rightarrow> string option" where
  "leafMatch line =
     (if line \<noteq> [] \<and> last line = CHR '';'' \<and> butlast line \<noteq> [] \<and>
         list_all (\<lambda>c. \<not> isLineTerminator c) (butlast line)
      then Some (butlast line) else None)"

text \<open>A diagnostic of \<open>console.warn\<close>: the number \<open>i + 1\<close> and the line printed in
  \<open>Warning: Could not parse line ${i + 1}: "${line}"\<close>.\<close>

type_synonym diagnostic = "nat \<times> string"

text \<open>
  \<open>parseBlock(lines, startIndex, parent)\<close>. The result is the list of nodes the loop
  pushes onto \<open>parent.children\<close> from index \<open>i\<close> on, the diagnostics it prints, and the
  index it returns.
\<close>

function parseBlock :: "string list \<Rightarrow> nat \<Rightarrow> JuniperNode list \<times> diagnostic list \<times> nat" where
  "parseBlock lines i =
     (if i < length lines then
        let line = lines ! i in
        if line = ''}'' then ([], [], i + 1)
        else
          case patternBlockMatch line of
            Some (blockType, pattern) \<Rightarrow>
              (case parseBlock lines (i + 1) of (kids, w1, j) \<Rightarrow>
                 (case parseBlock lines j of (rest, w2, k) \<Rightarrow>
                    (createNode ''pattern-block'' (Some blockType) (Some pattern) kids # rest,
                     w1 @ w2, k)))
          | None \<Rightarrow>
              (case multiWordBlockMatch line of
                 Some g \<Rightarrow>
                   let blockHeader = trim g; parts = splitWs blockHeader
                   in if length parts = 1 then
                        (case parseBlock lines (i + 1) of (kids, w1, j) \<Rightarrow>
                           (case parseBlock lines j of (rest, w2, k) \<Rightarrow>
                              (createNode ''block'' (Some (parts ! 0)) None kids # rest,
                               w1 @ w2, k)))
                      else
                        let blockType = parts ! 0; blockValue = joinWith '' '' (drop 1 parts)
                        in (case parseBlock lines (i + 1) of (kids, w1, j) \<Rightarrow>
                              (case parseBlock lines j of (rest, w2, k) \<Rightarrow>
                                 (createNode ''named-block'' (Some blockType) (Some blockValue) kids
                                    # rest,
                                  w1 @ w2, k)))
               | None \<Rightarrow>
                   (case leafMatch line of
                      Some g \<Rightarrow>
                        let statement = trim g
                        in (case parseBlock lines (i + 1) of (rest, w, k) \<Rightarrow>
                              (if CHR '' '' \<in> set statement then
                                 let parts = splitWs statement;
                                     directive = parts ! 0;
                                     v = filter (\<lambda>c. c \<noteq> CHR 0x22) (joinWith '' '' (drop 1 parts))
                                 in (createNode ''directive'' (Some directive) (Some v) [] # rest, w, k)
                               else (createNode ''flag'' (Some statement) None [] # rest, w, k)))
                    | None \<Rightarrow>
                        (case parseBlock lines (i + 1) of (rest, w, k) \<Rightarrow>
                           (rest, (i + 1, line) # w, k))))
      else ([], [], i))"
  by pat_completeness auto


lemma parseBlock_advances:
  "parseBlock_dom (lines, i) \<Longrightarrow>
     i \<le> snd (snd (parseBlock lines i)) \<and>
     (i < length lines \<longrightarrow> i < snd (snd (parseBlock lines i)))"
proof (induction lines i rule: parseBlock.pinduct)
  case (1 lines i)
  note eq = parseBlock.psimps [OF "1.hyps"]
  show ?case
  proof (cases "i < length lines")
    case False
    then show ?thesis using eq by simp
  next
    case True
    note lt = True
    show ?thesis
    proof (cases "lines ! i = ''}''")
      case True
      then show ?thesis using eq lt by simp
    next
      case False
      note ih = "1.IH" [OF lt refl False]
      have step: "i + 1 \<le> j \<Longrightarrow> j \<le> k \<Longrightarrow> i \<le> k \<and> i < k" for j k :: nat
        by simp
      show ?thesis
      proof (cases "patternBlockMatch (lines ! i)")
        case (Some a)
        obtain bt pat where a: "a = (bt, pat)" by (cases a)
        obtain kids w1 j where r1: "parseBlock lines (i + 1) = (kids, w1, j)"
          by (cases "parseBlock lines (i + 1)")
        obtain rest w2 k where r2: "parseBlock lines j = (rest, w2, k)"
          by (cases "parseBlock lines j")
        have "i + 1 \<le> j" using ih(7) [OF Some a [symmetric]] r1 by simp
        moreover have "j \<le> k"
          using ih(8) [OF Some a [symmetric] r1 [symmetric] refl] r2 by simp
        ultimately show ?thesis using eq lt False Some a r1 r2 by simp
      next
        case None
        note pn = None
        show ?thesis
        proof (cases "multiWordBlockMatch (lines ! i)")
          case (Some g)
          obtain kids w1 j where r1: "parseBlock lines (i + 1) = (kids, w1, j)"
            by (cases "parseBlock lines (i + 1)")
          obtain rest w2 k where r2: "parseBlock lines j = (rest, w2, k)"
            by (cases "parseBlock lines j")
          show ?thesis
          proof (cases "length (splitWs (trim g)) = 1")
            case True
            have "i + 1 \<le> j" using ih(3) [OF pn Some refl refl True] r1 by simp
            moreover have "j \<le> k"
              using ih(4) [OF pn Some refl refl True r1 [symmetric] refl] r2 by simp
            ultimately show ?thesis using eq lt False pn Some True r1 r2 by (simp add: Let_def)
          next
            case F: False
            have "i + 1 \<le> j" using ih(5) [OF pn Some refl refl F refl refl] r1 by simp
            moreover have "j \<le> k"
              using ih(6) [OF pn Some refl refl F refl refl r1 [symmetric] refl] r2 by simp
            ultimately show ?thesis using eq lt False pn Some F r1 r2 by (simp add: Let_def)
          qed
        next
          case None
          note mn = None
          obtain rest w k where r1: "parseBlock lines (i + 1) = (rest, w, k)"
            by (cases "parseBlock lines (i + 1)")
          show ?thesis
          proof (cases "leafMatch (lines ! i)")
            case (Some g)
            have "i + 1 \<le> k" using ih(2) [OF pn mn Some refl] r1 by simp
            then show ?thesis using eq lt False pn mn Some r1 by (simp add: Let_def)
          next
            case None
            have "i + 1 \<le> k" using ih(1) [OF pn mn None] r1 by simp
            then show ?thesis using eq lt False pn mn None r1 by simp
          qed
        qed
      qed
    qed
  qed
qed

termination parseBlock
proof (relation "measure (\<lambda>(lines, i). length lines - i)", goal_cases)
  case 1
  show ?case by simp
next
  case (5 lines i x x2 xa xb xc y xd ya)
  then show ?case using parseBlock_advances [of lines "i + 1"] by (auto simp: prod_eq_iff)
next
  case (7 lines i x x2 xa xb xc xd xe y xf ya)
  then show ?case using parseBlock_advances [of lines "i + 1"] by (auto simp: prod_eq_iff)
next
  case (9 lines i x x2 xa y xb ya xc yb)
  then show ?case using parseBlock_advances [of lines "i + 1"] by (auto simp: prod_eq_iff)
qed auto

declare parseBlock.simps [simp del]


text \<open>The preprocessing of \<open>parseJuniperConfig\<close>: split at line feeds, strip the comment
  of every line, trim it, and drop the lines left empty.\<close>

definition configLines :: "string \<Rightarrow> string list" where
  "configLines config =
     filter (\<lambda>line. length line > 0)
       (map (\<lambda>line. trim (stripComment line)) (splitOn CHR 0x0A config))"

text \<open>\<open>parseJuniperConfig\<close> returns the root node; the second component collects what
  the call prints with \<open>console.warn\<close>.\<close>

definition parseJuniperConfig :: "string \<Rightarrow> JuniperNode \<times> diagnostic list" where
  "parseJuniperConfig config =
     (let lines = configLines config
      in case parseBlock lines 0 of (kids, warnings, _) \<Rightarrow>
           (createNode ''root'' None None kids, warnings))"



section \<open>The serializer\<close>

text \<open>A \<open>string | null\<close> inside a template literal.\<close>

definition templateStr :: "string option \<Rightarrow> string" where
  "templateStr v = (case v of None \<Rightarrow> ''null'' | Some s \<Rightarrow> s)"

fun nodeToConfig :: "JuniperNode \<Rightarrow> nat \<Rightarrow> string" where
  "nodeToConfig (JuniperNode t n v cs) indent =
     (let indentStr = concat (replicate indent ''    '') in
      if t = ''root'' then
        joinWith [CHR 0x0A] (map (\<lambda>child. nodeToConfig child indent) cs)
      else if t = ''block'' then
        (let childrenConfig = joinWith [CHR 0x0A] (map (\<lambda>child. nodeToConfig child (indent + 1)) cs)
         in indentStr @ templateStr n @ '' {'' @ [CHR 0x0A]
            @ (if childrenConfig \<noteq> [] then childrenConfig @ [CHR 0x0A] else [])
            @ indentStr @ ''}'')
      else if t = ''named-block'' \<or> t = ''pattern-block'' then
        (let childrenConfig = joinWith [CHR 0x0A] (map (\<lambda>child. nodeToConfig child (indent + 1)) cs)
         in indentStr @ templateStr n @ '' '' @ templateStr v @ '' {'' @ [CHR 0x0A]
            @ (if childrenConfig \<noteq> [] then childrenConfig @ [CHR 0x0A] else [])
            @ indentStr @ ''}'')
      else if t = ''directive'' then indentStr @ templateStr n @ '' '' @ templateStr v @ '';''
      else if t = ''flag'' then indentStr @ templateStr n @ '';''
      else indentStr @ ''# Unknown node type: '' @ t)"

definition astToConfig :: "JuniperNode \<Rightarrow> string" where
  "astToConfig ast = nodeToConfig ast 0"


section \<open>JavaScript values\<close>

text \<open>
  The differ, the interface extractor and the synthesizer walk their arguments as plain
  JavaScript values. The values reachable from a \<open>JuniperNode\<close>, a change record or an
  interface table are \<open>undefined\<close>, \<open>null\<close>, strings, arrays and objects; an object is
  the list of its own properties in insertion order. Properties inherited from a
  prototype, the \<open>length\<close> of an array and object identity are outside the model.
\<close>

datatype jv = JUndefined | JNull | JStr string | JArr "jv list" | JObj "(string \<times> jv) list"

fun typeOf :: "jv \<Rightarrow> string" where
  "typeOf JUndefined = ''undefined''"
| "typeOf (JStr s) = ''string''"
| "typeOf v = ''object''"

fun isArray :: "jv \<Rightarrow> bool" where
  "isArray (JArr xs) = True"
| "isArray v = False"

fun elems :: "jv \<Rightarrow> jv list" where
  "elems (JArr xs) = xs"
| "elems v = []"

fun truthy :: "jv \<Rightarrow> bool" where
  "truthy JUndefined = False"
| "truthy JNull = False"
| "truthy (JStr s) = (s \<noteq> [])"
| "truthy v = True"

text \<open>The canonical index a property key denotes, if any: \<open>0\<close>, or decimal digits
  without a leading zero.\<close>

definition isDigit :: "char \<Rightarrow> bool" where
  "isDigit c = (48 \<le> (of_char c :: nat) \<and> (of_char c :: nat) \<le> 57)"

definition decimalValue :: "string \<Rightarrow> nat" where
  "decimalValue k = foldl (\<lambda>n c. 10 * n + ((of_char c :: nat) - 48)) 0 k"

definition keyIndex :: "string \<Rightarrow> nat option" where
  "keyIndex k =
     (if k \<noteq> [] \<and> list_all isDigit k \<and> (k = ''0'' \<or> hd k \<noteq> CHR ''0'')
      then Some (decimalValue k) else None)"

text \<open>\<open>Object.keys(v)\<close>, \<open>prop in v\<close> and \<open>v[prop]\<close> for an array or an object:
  \<open>getProp\<close> is \<open>None\<close> where \<open>prop in v\<close> is false.\<close>

fun ownKeys :: "jv \<Rightarrow> string list" where
  "ownKeys (JObj kvs) = map fst kvs"
| "ownKeys (JArr xs) = map showNat [0..<length xs]"
| "ownKeys v = []"

fun getProp :: "jv \<Rightarrow> string \<Rightarrow> jv option" where
  "getProp (JObj kvs) k = map_of kvs k"
| "getProp (JArr xs) k =
     (case keyIndex k of
        Some i \<Rightarrow> if i < length xs then Some (xs ! i) else None
      | None \<Rightarrow> None)"
| "getProp v k = None"

definition readProp :: "jv \<Rightarrow> string \<Rightarrow> jv" where
  "readProp v k = (case getProp v k of Some x \<Rightarrow> x | None \<Rightarrow> JUndefined)"

text \<open>\<open>a === b\<close>: two primitives are compared by value; two arrays or objects are
  taken to be distinct references.\<close>

fun strictEq :: "jv \<Rightarrow> jv \<Rightarrow> bool" where
  "strictEq JUndefined JUndefined = True"
| "strictEq JNull JNull = True"
| "strictEq (JStr a) (JStr b) = (a = b)"
| "strictEq a b = False"

text \<open>The string a value becomes in a concatenation, a template literal or a property
  key.\<close>

fun jsString :: "jv \<Rightarrow> string" where
  "jsString JUndefined = ''undefined''"
| "jsString JNull = ''null''"
| "jsString (JStr s) = s"
| "jsString (JArr xs) =
     joinWith '','' (map (\<lambda>x. if x = JNull \<or> x = JUndefined then [] else jsString x) xs)"
| "jsString (JObj kvs) = ''[object Object]''"

text \<open>A \<open>JuniperNode\<close> as a value: the object literal of \<open>createNode\<close>.\<close>

definition optJv :: "string option \<Rightarrow> jv" where
  "optJv v = (case v of None \<Rightarrow> JNull | Some s \<Rightarrow> JStr s)"

fun nodeJv :: "JuniperNode \<Rightarrow> jv" where
  "nodeJv (JuniperNode t n v cs) =
     JObj [(''type'', JStr t), (''name'', optJv n), (''value'', optJv v),
           (''children'', JArr (map nodeJv cs))]"

text \<open>The elements of a \<open>Set\<close> built from a list, in insertion order.\<close>

fun uniq :: "'a list \<Rightarrow> 'a list" where
  "uniq [] = []"
| "uniq (x # xs) = x # filter (\<lambda>y. y \<noteq> x) (uniq xs)"

section \<open>The differ\<close>

text \<open>\<open>maxDepth\<close> is a number that may be \<open>Infinity\<close>.\<close>

datatype depth = Infinity | Depth int

definition lowerDepth :: "depth \<Rightarrow> depth" where
  "lowerDepth d = (case d of Infinity \<Rightarrow> Infinity | Depth n \<Rightarrow> if n > 0 then Depth (n - 1) else Depth 0)"

record DiffOptions =
  ignoreProperties :: "string list"
  ignoreArrayOrder :: bool
  maxDepth :: depth
  currentPath :: "string list"
  absolutePath :: "string list"

text \<open>The defaults of the destructuring in \<open>diffAst\<close>.\<close>

definition defaultOptions :: DiffOptions where
  "defaultOptions =
     \<lparr>ignoreProperties = [''loc'', ''range''], ignoreArrayOrder = False, maxDepth = Infinity,
      currentPath = [], absolutePath = []\<rparr>"

record JuniperDiff =
  diffType :: string
  diffPath :: "string list"
  diffAbsolutePath :: "string list"
  oldValue :: "jv option"
  newValue :: "jv option"
  property :: "string option"
  nodeType :: "jv option"
  oldType :: "string option"
  newType :: "string option"

definition mkDiff :: "string \<Rightarrow> string list \<Rightarrow> string list \<Rightarrow> JuniperDiff" where
  "mkDiff t p ap =
     \<lparr>diffType = t, diffPath = p, diffAbsolutePath = ap, oldValue = None, newValue = None,
      property = None, nodeType = None, oldType = None, newType = None\<rparr>"

section \<open>Similarity of two values\<close>

text \<open>
  \<open>calculateSimilarity\<close> computes in floating point; the model computes the same
  expressions in the rationals. On two objects (the case of two \<open>JuniperNode\<close>s) every
  intermediate value is a multiple of a power of two or a quotient the threshold test
  does not depend on.
\<close>

definition valueCredit :: "jv \<Rightarrow> jv \<Rightarrow> rat" where
  "valueCredit x y =
     (if typeOf x \<noteq> ''object'' \<and> typeOf y \<noteq> ''object'' then (if strictEq x y then 1 else 0)
      else if truthy x \<and> truthy y then 1 / 2
      else 0)"

definition objectSimilarity :: "jv \<Rightarrow> jv \<Rightarrow> rat" where
  "objectSimilarity nodeA nodeB =
     (let propsA = filter (\<lambda>p. p \<noteq> ''loc'' \<and> p \<noteq> ''range'') (ownKeys nodeA);
          propsB = filter (\<lambda>p. p \<noteq> ''loc'' \<and> p \<noteq> ''range'') (ownKeys nodeB)
      in if propsA = [] \<and> propsB = [] then 1
         else if propsA = [] \<or> propsB = [] then 3 / 10
         else
           let commonProps = filter (\<lambda>p. p \<in> set propsB) propsA;
               propOverlap = of_nat (length commonProps) / of_nat (max (length propsA) (length propsB));
               valueSimilarity =
                 (if commonProps \<noteq> [] then
                    let keyProps = filter (\<lambda>p. p \<in> set [''id'', ''name'', ''value'', ''operator'',
                                                 ''key'', ''kind'', ''computed'']) commonProps;
                        propsToCheck = (if keyProps \<noteq> [] then keyProps else take 3 commonProps);
                        checkedProps = length propsToCheck;
                        total = sum_list (map (\<lambda>prop. valueCredit (readProp nodeA prop)
                                                           (readProp nodeB prop)) propsToCheck)
                    in if checkedProps > 0 then total / of_nat checkedProps else 0
                  else 0)
           in 1 / 2 * propOverlap + 1 / 2 * valueSimilarity)"

function calculateSimilarity :: "jv \<Rightarrow> jv \<Rightarrow> rat" where
  "calculateSimilarity nodeA nodeB =
     (if typeOf nodeA \<noteq> typeOf nodeB then 0
      else if nodeA = JNull \<or> nodeB = JNull then (if nodeA = nodeB then 1 else 0)
      else if typeOf nodeA \<noteq> ''object'' \<or> typeOf nodeB \<noteq> ''object'' then
        (if nodeA = nodeB then 1 else 0)
      else if \<not> strictEq (readProp nodeA ''type'') (readProp nodeB ''type'') then 1 / 10
      else if isArray nodeA \<and> isArray nodeB then
        (let la = length (elems nodeA); lb = length (elems nodeB)
         in if la = 0 \<and> lb = 0 then 1
            else if la = 0 \<or> lb = 0 then 3 / 10
            else
              let lengthRatio = of_nat (min la lb) / of_nat (max la lb) :: rat
              in if lengthRatio < 1 / 2 then 2 / 10 + lengthRatio * (3 / 10)
                 else
                   let comparisons = min 5 (min la lb);
                       totalSimilarity =
                         sum_list (map (\<lambda>i. calculateSimilarity
                                          (elems nodeA ! ((i * la) div comparisons))
                                          (elems nodeB ! ((i * lb) div comparisons)))
                                     [0..<comparisons])
                   in (1 / 2 + 1 / 2 * (totalSimilarity / of_nat comparisons)) * lengthRatio)
      else objectSimilarity nodeA nodeB)"
  by pat_completeness auto

lemma size_nth_less: "i < length xs \<Longrightarrow> size (xs ! i) < Suc (size_list size xs)"
  by (metis less_Suc_eq_le nth_mem size_list_estimation' order_refl)

lemma elems_size: "i < length (elems v) \<Longrightarrow> size (elems v ! i) < size v"
  by (cases v) (simp_all add: size_nth_less)

lemma map_of_size: "map_of kvs k = Some x \<Longrightarrow> size x < Suc (size_list (size_prod (\<lambda>_. 0) size) kvs)"
  by (induction kvs) (auto split: if_splits)

lemma getProp_size: "getProp v k = Some x \<Longrightarrow> size x < size v"
  by (cases v) (auto simp: size_nth_less map_of_size split: option.splits if_splits)

lemma sample_index_less: "i < c \<Longrightarrow> c \<le> n \<Longrightarrow> (i * n) div c < (n::nat)"
  by (metis div_less_iff_less_mult less_le_trans mult.commute mult_less_cancel1 not_less_zero
      zero_less_iff_neq_zero)

termination calculateSimilarity
proof (relation "measure (\<lambda>(a, b). size a)", goal_cases)
  case 1
  show ?case by simp
next
  case (2 nodeA nodeB la lb lengthRatio comparisons i)
  then have "i < comparisons" "comparisons \<le> la" by auto
  then have "(i * la) div comparisons < length (elems nodeA)"
    using 2 sample_index_less by simp
  then show ?case using elems_size by simp
qed

declare calculateSimilarity.simps [simp del]

section \<open>The differ, continued: \<open>diffAst\<close>\<close>

definition getNodeType :: "jv \<Rightarrow> jv" where
  "getNodeType node =
     (if truthy node \<and> typeOf node = ''object'' then
        (if truthy (readProp node ''type'') then readProp node ''type'' else JStr ''Unknown'')
      else JStr (typeOf node))"

definition getAbsolutePath :: "string list \<Rightarrow> jv \<Rightarrow> string \<Rightarrow> string list" where
  "getAbsolutePath ap node pathSegment =
     (if \<not> truthy node \<or> typeOf node \<noteq> ''object'' then ap @ [pathSegment]
      else if truthy (readProp node ''name'') then
        (let nodePathComponent = jsString (readProp node ''name'')
         in if ap \<noteq> [] \<and> last ap = nodePathComponent then ap else ap @ [nodePathComponent])
      else ap @ [pathSegment])"

text \<open>The inner loop of the order-insensitive branch: the first unmatched index of the
  new array with the highest score, and that score; \<open>None\<close> is the index \<open>-1\<close>.\<close>

definition bestMatch :: "jv \<Rightarrow> jv list \<Rightarrow> nat list \<Rightarrow> nat option \<times> rat" where
  "bestMatch oldNode ys matchedIndexes =
     fold (\<lambda>j (bestMatchIndex, bestMatchScore).
             if j \<in> set matchedIndexes then (bestMatchIndex, bestMatchScore)
             else
               let similarityScore = calculateSimilarity oldNode (ys ! j)
               in if similarityScore > bestMatchScore then (Some j, similarityScore)
                  else (bestMatchIndex, bestMatchScore))
          [0..<length ys] (None, - 1)"

definition removeRecord :: "string list \<Rightarrow> string list \<Rightarrow> jv \<Rightarrow> nat \<Rightarrow> JuniperDiff" where
  "removeRecord cp ap node i =
     (mkDiff ''remove'' (cp @ [showNat i]) (getAbsolutePath ap node (showNat i)))
       \<lparr>oldValue := Some node, nodeType := Some (getNodeType node)\<rparr>"

definition addRecord :: "string list \<Rightarrow> string list \<Rightarrow> jv \<Rightarrow> nat \<Rightarrow> JuniperDiff" where
  "addRecord cp ap node j =
     (mkDiff ''add'' (cp @ [showNat j]) (getAbsolutePath ap node (showNat j)))
       \<lparr>newValue := Some node, nodeType := Some (getNodeType node)\<rparr>"

text \<open>The absolute path under which the property \<open>prop\<close> of an object is compared.\<close>

definition propNodePath :: "string list \<Rightarrow> jv \<Rightarrow> string \<Rightarrow> string list" where
  "propNodePath ap oldAst prop =
     (if prop = ''children'' \<and> truthy (readProp oldAst ''name'') then
        (let nodePathComponent =
               jsString (readProp oldAst ''name'')
               @ (if truthy (readProp oldAst ''value'') then '' '' @ jsString (readProp oldAst ''value'')
                  else [])
         in if ap \<noteq> [] \<and> last ap = nodePathComponent then ap else ap @ [nodePathComponent])
      else if prop \<noteq> ''children'' then ap @ [prop]
      else ap)"

definition childOptions :: "DiffOptions \<Rightarrow> string \<Rightarrow> string list \<Rightarrow> DiffOptions" where
  "childOptions options seg nodePath =
     options\<lparr>currentPath := currentPath options @ [seg], absolutePath := nodePath,
             maxDepth := lowerDepth (maxDepth options)\<rparr>"

function diffAst :: "jv \<Rightarrow> jv \<Rightarrow> DiffOptions \<Rightarrow> JuniperDiff list" where
  "diffAst oldAst newAst options =
     (let cp = currentPath options; ap = absolutePath options in
      if typeOf oldAst \<noteq> typeOf newAst then
        [(mkDiff ''replace'' cp ap)
           \<lparr>oldValue := Some oldAst, newValue := Some newAst,
            oldType := Some (typeOf oldAst), newType := Some (typeOf newAst)\<rparr>]
      else if oldAst = JNull \<or> newAst = JNull \<or> typeOf oldAst \<noteq> ''object''
              \<or> typeOf newAst \<noteq> ''object'' then
        (if oldAst \<noteq> newAst then
           [(mkDiff ''replace'' cp ap)\<lparr>oldValue := Some oldAst, newValue := Some newAst\<rparr>]
         else [])
      else if isArray oldAst \<and> isArray newAst then
        (let xs = elems oldAst; ys = elems newAst in
         if ignoreArrayOrder options then
           (case fold (\<lambda>i (matchedIndexes, out).
                         let oldNode = xs ! i in
                         case bestMatch oldNode ys matchedIndexes of
                           (Some b, bestMatchScore) \<Rightarrow>
                             if bestMatchScore > 7 / 10 then
                               (matchedIndexes @ [b],
                                out @ diffAst oldNode (ys ! b)
                                  (childOptions options (showNat i)
                                     (getAbsolutePath ap oldNode (showNat i))))
                             else (matchedIndexes, out @ [removeRecord cp ap oldNode i])
                         | (None, bestMatchScore) \<Rightarrow>
                             (matchedIndexes, out @ [removeRecord cp ap oldNode i]))
                      [0..<length xs] ([], [])
            of (matchedIndexes, out) \<Rightarrow>
              out @ concat (map (\<lambda>j. if j \<notin> set matchedIndexes then [addRecord cp ap (ys ! j) j]
                                          else [])
                                [0..<length ys]))
         else
           concat (map (\<lambda>i.
                     if i \<ge> length xs then [addRecord cp ap (ys ! i) i]
                     else if i \<ge> length ys then [removeRecord cp ap (xs ! i) i]
                     else if maxDepth options \<noteq> Depth 0 then
                       diffAst (xs ! i) (ys ! i)
                         (childOptions options (showNat i) (getAbsolutePath ap (xs ! i) (showNat i)))
                     else [])
                   [0..<max (length xs) (length ys)]))
      else
        concat (map (\<lambda>prop.
                  if prop \<in> set (ignoreProperties options) then []
                  else
                    case getProp oldAst prop of
                      None \<Rightarrow>
                        [(mkDiff ''add-prop'' (cp @ [prop]) (ap @ [prop]))
                           \<lparr>newValue := Some (readProp newAst prop), property := Some prop\<rparr>]
                    | Some oldChild \<Rightarrow>
                        (case getProp newAst prop of
                           None \<Rightarrow>
                             [(mkDiff ''remove-prop'' (cp @ [prop]) (ap @ [prop]))
                                \<lparr>oldValue := Some oldChild, property := Some prop\<rparr>]
                         | Some newChild \<Rightarrow>
                             if maxDepth options \<noteq> Depth 0 then
                               diffAst oldChild newChild
                                 (childOptions options prop (propNodePath ap oldAst prop))
                             else []))
                (uniq (ownKeys oldAst @ ownKeys newAst))))"
  by pat_completeness auto
termination
proof (relation "measure (\<lambda>(a, b, opts). size a)", goal_cases)
  case 1
  show ?case by simp
next
  case (2 oldAst newAst options cp ap xs ys i)
  then show ?case using elems_size [of i oldAst] by simp
next
  case (3 oldAst newAst options cp ap xs ys i)
  then show ?case using elems_size [of i oldAst] by simp
next
  case (4 oldAst newAst options cp ap p oldChild newChild)
  then show ?case using getProp_size by simp
qed

declare diffAst.simps [simp del]

section \<open>Property paths of lodash\<close>

text \<open>
  \<open>_.get\<close> and \<open>_.set\<close> are library functions; the model follows lodash 4.17 for
  path strings without brackets. Such a string is a single key if it has no dot or if it
  is an own property of the object, and the list of its dot-separated pieces otherwise.
\<close>

definition castPath :: "string \<Rightarrow> jv \<Rightarrow> string list" where
  "castPath path object =
     (if CHR ''.'' \<notin> set path \<or> getProp object path \<noteq> None then [path]
      else splitOn CHR ''.'' path)"

text \<open>\<open>object[key]\<close>, also on a string, whose indices are its characters.\<close>

definition readAny :: "jv \<Rightarrow> string \<Rightarrow> jv" where
  "readAny v key =
     (case v of
        JStr s \<Rightarrow>
          (case keyIndex key of
             Some i \<Rightarrow> if i < length s then JStr [s ! i] else JUndefined
           | None \<Rightarrow> JUndefined)
      | _ \<Rightarrow> readProp v key)"

fun baseGet :: "jv \<Rightarrow> string list \<Rightarrow> jv" where
  "baseGet object [] = object"
| "baseGet object (key # keys) =
     (if object = JNull \<or> object = JUndefined then JUndefined
      else baseGet (readAny object key) keys)"

definition lodashGet :: "jv \<Rightarrow> string \<Rightarrow> jv" where
  "lodashGet object path =
     (if object = JNull \<or> object = JUndefined then JUndefined
      else baseGet object (castPath path object))"

definition isObject :: "jv \<Rightarrow> bool" where
  "isObject v = (case v of JArr xs \<Rightarrow> True | JObj kvs \<Rightarrow> True | _ \<Rightarrow> False)"

text \<open>\<open>isIndex\<close>: a canonical index (the bound \<open>Number.MAX_SAFE_INTEGER\<close> of the
  library is not modelled).\<close>

definition isIndex :: "string \<Rightarrow> bool" where
  "isIndex key = (keyIndex key \<noteq> None)"

text \<open>\<open>obj[key] = v\<close> on an own-property list: an existing property keeps its place, a
  new one goes to the end.\<close>

fun setKey :: "('k \<times> 'v) list \<Rightarrow> 'k \<Rightarrow> 'v \<Rightarrow> ('k \<times> 'v) list" where
  "setKey [] k v = [(k, v)]"
| "setKey ((k', v') # kvs) k v = (if k' = k then (k, v) # kvs else (k', v') # setKey kvs k v)"

text \<open>\<open>nested[key] = v\<close>. An index beyond the end of an array leaves holes, which read
  as \<open>undefined\<close>; a property of an array that is no index is not represented.\<close>

definition assignValue :: "jv \<Rightarrow> string \<Rightarrow> jv \<Rightarrow> jv" where
  "assignValue nested key v =
     (case nested of
        JObj kvs \<Rightarrow> JObj (setKey kvs key v)
      | JArr xs \<Rightarrow>
          (case keyIndex key of
             Some i \<Rightarrow>
               if i < length xs then JArr (xs[i := v])
               else JArr (xs @ replicate (i - length xs) JUndefined @ [v])
           | None \<Rightarrow> JArr xs)
      | _ \<Rightarrow> nested)"

text \<open>\<open>baseSet\<close>: the loop over the keys, from the container \<open>nested\<close> on. The keys
  \<open>__proto__\<close>, \<open>constructor\<close> and \<open>prototype\<close> end it.\<close>

fun baseSet :: "jv \<Rightarrow> string list \<Rightarrow> jv \<Rightarrow> jv" where
  "baseSet nested [] v = nested"
| "baseSet nested (key # keys) v =
     (if key = ''__proto__'' \<or> key = ''constructor'' \<or> key = ''prototype'' then nested
      else if keys = [] then assignValue nested key v
      else
        let objValue = readProp nested key;
            newValue = (if isObject objValue then objValue
                        else if isIndex (hd keys) then JArr [] else JObj [])
        in assignValue nested key (baseSet newValue keys v))"

definition lodashSet :: "jv \<Rightarrow> string \<Rightarrow> jv \<Rightarrow> jv" where
  "lodashSet object path v =
     (if \<not> isObject object then object else baseSet object (castPath path object) v)"

section \<open>The interface extractor\<close>

text \<open>
  An interface table is the array of its entries, each entry the property list of an
  object. \<open>addInterfaceProp\<close> computes the contents of the array after the call; that
  the call writes them into the array it was given is stated with the store below.
\<close>

type_synonym Interface = "(string \<times> jv) list"

text \<open>\<open>path[i]\<close>, \<open>undefined\<close> beyond the end.\<close>

definition pathAt :: "string list \<Rightarrow> nat \<Rightarrow> jv" where
  "pathAt path i = (if i < length path then JStr (path ! i) else JUndefined)"

definition normalizedPath :: "string list \<Rightarrow> string" where
  "normalizedPath path =
     joinWith ''.'' (map snd (filter (\<lambda>(index, seg). index \<noteq> 0 \<and> index mod 2 = 0)
                                  (zip [0..<length path] path)))"

definition entryOf :: "jv \<Rightarrow> Interface" where
  "entryOf v = (case v of JObj kvs \<Rightarrow> kvs | _ \<Rightarrow> [])"

definition addInterfaceProp :: "Interface list \<Rightarrow> string list \<Rightarrow> jv \<Rightarrow> Interface list" where
  "addInterfaceProp interfaces path v =
     (if pathAt path 0 \<noteq> JStr ''interfaces'' then interfaces
      else
        let interfaceName = pathAt path 1;
            found = find (\<lambda>k. strictEq (readProp (JObj (interfaces ! k)) ''name'') interfaceName)
                      [0..<length interfaces];
            pushed = (if found = None then interfaces @ [[(''name'', interfaceName)]] else interfaces);
            m = (case found of Some k \<Rightarrow> k | None \<Rightarrow> length pushed - 1)
        in if normalizedPath path \<noteq> ''name'' then
             pushed[m := entryOf (lodashSet (JObj (pushed ! m)) (normalizedPath path) v)]
           else pushed)"

text \<open>The fold of the node's \<open>extractVariables\<close> action over a change list. A record
  without \<open>oldValue\<close> passes \<open>undefined\<close>.\<close>

definition extractInterfaces :: "JuniperDiff list \<Rightarrow> Interface list" where
  "extractInterfaces diff =
     foldl (\<lambda>acc d. if diffType d \<noteq> ''replace'' then acc
                     else addInterfaceProp acc (diffAbsolutePath d)
                            (case oldValue d of Some v \<Rightarrow> v | None \<Rightarrow> JUndefined))
           [] diff"

section \<open>The template synthesizer\<close>

text \<open>Every exception the synthesizer can raise is a \<open>TypeError\<close>.\<close>

datatype error = TypeError

text \<open>
  The number \<open>+s\<close> of a path piece, as far as it is compared with array indices: the
  natural number it denotes, or \<open>None\<close> for \<open>NaN\<close> and for every number that is no
  index. The empty string is zero and surrounding white space is ignored. Signs, fractions,
  exponents and radix prefixes are read as no index: the pieces of the paths \<open>diffAst\<close>
  produces are property names and canonical indices.
\<close>

definition toNumber :: "string \<Rightarrow> nat option" where
  "toNumber s =
     (let t = trim s
      in if list_all isDigit t then Some (decimalValue t) else None)"

text \<open>A loop group: the key, and for every change its joined path and its subgroup.\<close>

type_synonym loopGroups = "(string \<times> (string \<times> nat option) list) list"

definition startsWith :: "string \<Rightarrow> string \<Rightarrow> bool" where
  "startsWith s p = (take (length p) s = p)"

definition findLoopOpportunities :: "JuniperDiff list \<Rightarrow> loopGroups" where
  "findLoopOpportunities diff =
     foldl (\<lambda>acc d.
              let path = diffPath d;
                  wildcardPath = joinWith ''.'' (take (length path - 2) path);
                  existingKey = find (\<lambda>candidate. wildcardPath = candidate
                                        \<or> startsWith wildcardPath (candidate @ ''.''))
                                  (map fst acc);
                  key = (case existingKey of Some k \<Rightarrow> k | None \<Rightarrow> wildcardPath);
                  existingList = (case map_of acc key of Some l \<Rightarrow> l | None \<Rightarrow> []);
                  subgroup = toNumber (hd (splitOn CHR ''.''
                                             (drop (length key + 1) (joinWith ''.'' path))))
              in setKey acc key (existingList @ [(joinWith ''.'' path, subgroup)]))
           [] diff"

text \<open>
  The reverse lookup table is a plain object: besides the entries \<open>flattenObjectReverse\<close>
  writes, a read finds the members every object inherits, which are functions (and, for
  \<open>__proto__\<close>, the prototype object).
\<close>

definition objectPrototypeKeys :: "string list" where
  "objectPrototypeKeys =
     [''constructor'', ''__defineGetter__'', ''__defineSetter__'', ''hasOwnProperty'',
      ''__lookupGetter__'', ''__lookupSetter__'', ''isPrototypeOf'', ''propertyIsEnumerable'',
      ''toString'', ''valueOf'', ''__proto__'', ''toLocaleString'']"

text \<open>\<open>reveredVariables[key]\<close>: \<open>None\<close> is \<open>undefined\<close>; otherwise the string the
  value gives in a template literal and under \<open>toString()\<close>.\<close>

definition reverseLookup :: "(string \<times> string) list \<Rightarrow> string \<Rightarrow> string option" where
  "reverseLookup table key =
     (case map_of table key of
        Some p \<Rightarrow> Some p
      | None \<Rightarrow>
          if key \<in> set objectPrototypeKeys then
            Some (if key = ''__proto__'' then ''[object Object]''
                  else if key = ''constructor'' then ''function Object() { [native code] }''
                  else ''function '' @ key @ ''() { [native code] }'')
          else None)"

text \<open>\<open>flattenObjectReverse(obj, prefix, res)\<close> over the entries of \<open>obj\<close>. Writing the
  key \<open>__proto__\<close> with a string leaves the table as it is.\<close>

function flattenObjectReverse ::
  "(string \<times> jv) list \<Rightarrow> string \<Rightarrow> (string \<times> string) list \<Rightarrow> (string \<times> string) list" where
  "flattenObjectReverse [] prefix res = res"
| "flattenObjectReverse ((key, v) # rest) prefix res =
     (let path = (if prefix \<noteq> [] then prefix @ ''.'' @ key else key)
      in case v of
           JObj kvs \<Rightarrow> flattenObjectReverse rest prefix (flattenObjectReverse kvs path res)
         | _ \<Rightarrow> flattenObjectReverse rest prefix
                 (if jsString v = ''__proto__'' then res else setKey res (jsString v) path))"
  by pat_completeness auto
termination
  by (relation "measure (\<lambda>(obj, prefix, res). size_list (size_prod (\<lambda>_. 0) size) obj)") auto

text \<open>\<open>{...ast}\<close>: the own properties of a value.\<close>

definition spread :: "jv \<Rightarrow> (string \<times> jv) list" where
  "spread v =
     (case v of
        JObj kvs \<Rightarrow> kvs
      | JArr xs \<Rightarrow> zip (map showNat [0..<length xs]) xs
      | JStr s \<Rightarrow> zip (map showNat [0..<length s]) (map (\<lambda>c. JStr [c]) s)
      | _ \<Rightarrow> [])"

text \<open>A list of results, stopped by the first error, as an exception stops \<open>map\<close>.\<close>

fun sequence :: "('e + 'a) list \<Rightarrow> 'e + 'a list" where
  "sequence [] = Inr []"
| "sequence (x # xs) =
     (case x of
        Inl e \<Rightarrow> Inl e
      | Inr a \<Rightarrow> (case sequence xs of Inl e \<Rightarrow> Inl e | Inr as \<Rightarrow> Inr (a # as)))"

text \<open>The rewriting of one dot component of the value of an \<open>interface\<close> node.\<close>

definition replaceComponent :: "(string \<times> string) list \<Rightarrow> nat \<Rightarrow> string \<Rightarrow> error + string" where
  "replaceComponent table index v =
     (if index = 0 then
        (case reverseLookup table v of
           None \<Rightarrow> Inl TypeError
         | Some p \<Rightarrow> if p = ''interface.name'' then Inr (''{{'' @ p @ ''}}'') else Inr v)
      else if index = 1 then
        (case reverseLookup table v of
           None \<Rightarrow> Inl TypeError
         | Some p \<Rightarrow> if p = ''interface.unit.name'' then Inr (''{{'' @ p @ ''}}'') else Inr v)
      else Inr v)"

text \<open>The reverse lookup of a name or a value that is truthy: the placeholder if the
  table has a truthy entry, the value itself otherwise.\<close>

definition spotReplace :: "(string \<times> string) list \<Rightarrow> jv \<Rightarrow> jv" where
  "spotReplace table v =
     (case reverseLookup table (jsString v) of
        Some p \<Rightarrow> if p \<noteq> [] then JStr (''{{'' @ p @ ''}}'') else v
      | None \<Rightarrow> v)"

text \<open>The first half of \<open>convertToLoopBody\<close>: the properties of the copy \<open>replaced\<close>
  after its name and its value are rewritten.\<close>

definition replaceOwn ::
  "(string \<times> jv) list \<Rightarrow> (string \<times> jv) list \<Rightarrow> (string \<times> string) list \<Rightarrow> string
     \<Rightarrow> error + (string \<times> jv) list" where
  "replaceOwn replaced variables reveredVariables currPath =
     (let name = readProp (JObj replaced) ''name''; v = readProp (JObj replaced) ''value'' in
      if strictEq name (JStr ''interface'') \<and> truthy v then
        (case v of
           JStr text \<Rightarrow>
             (let parts = splitOn CHR ''.'' text
              in case sequence (map (\<lambda>(index, part). replaceComponent reveredVariables index part)
                                  (zip [0..<length parts] parts)) of
                   Inl e \<Rightarrow> Inl e
                 | Inr parts' \<Rightarrow> Inr (setKey replaced ''value'' (JStr (joinWith ''.'' parts'))))
         | _ \<Rightarrow> Inl TypeError)
      else if typeOf (lodashGet (JObj variables) currPath) = ''string'' then
        Inr (setKey replaced ''value'' (JStr (''{{'' @ currPath @ ''}}'')))
      else if \<not> startsWith currPath ''interface.'' then
        (let r1 = (if truthy name then setKey replaced ''name'' (spotReplace reveredVariables name)
                   else replaced)
         in Inr (if truthy v then setKey r1 ''value'' (spotReplace reveredVariables v) else r1))
      else Inr replaced)"

lemma map_of_zip_mem: "map_of (zip ks xs) k = Some v \<Longrightarrow> v \<in> set xs"
  by (meson in_set_zipE map_of_SomeD)

lemma spread_children_size:
  "x \<in> set (elems (readProp (JObj (spread ast)) k)) \<Longrightarrow> size x < size ast"
proof (cases ast)
  case (JObj kvs)
  assume x: "x \<in> set (elems (readProp (JObj (spread ast)) k))"
  then obtain v where v: "map_of kvs k = Some v" "x \<in> set (elems v)"
    using JObj by (auto simp: spread_def readProp_def split: option.splits)
  then obtain i where "i < length (elems v)" "x = elems v ! i"
    by (metis in_set_conv_nth)
  then have "size x < size v" using elems_size by simp
  then show ?thesis using map_of_size [OF v(1)] JObj by simp
next
  case (JArr xs)
  assume x: "x \<in> set (elems (readProp (JObj (spread ast)) k))"
  then obtain v where v: "v \<in> set xs" "x \<in> set (elems v)"
    using JArr by (auto simp: spread_def readProp_def split: option.splits dest: map_of_zip_mem)
  then obtain i where "i < length (elems v)" "x = elems v ! i"
    by (metis in_set_conv_nth)
  then have "size x < size v" using elems_size by simp
  moreover have "size v \<le> size_list size xs"
    using v(1) by (rule size_list_estimation') simp
  then have "size v < size ast" using JArr by simp
  ultimately show ?thesis by simp
next
  case (JStr s)
  assume "x \<in> set (elems (readProp (JObj (spread ast)) k))"
  then show ?thesis
    using JStr by (auto simp: spread_def readProp_def split: option.splits dest!: map_of_zip_mem)
qed (auto simp: spread_def readProp_def)

text \<open>
  \<open>convertToLoopBody\<close>. The children are read before the name and the value are
  rewritten, which does not touch them. Reading the name of a child that is \<open>null\<close> or
  \<open>undefined\<close> raises.
\<close>

function convertToLoopBody ::
  "jv \<Rightarrow> (string \<times> jv) list \<Rightarrow> (string \<times> string) list \<Rightarrow> string \<Rightarrow> error + jv" where
  "convertToLoopBody ast variables reveredVariables currPath =
     (let kids = readProp (JObj (spread ast)) ''children'' in
      case replaceOwn (spread ast) variables reveredVariables currPath of
        Inl e \<Rightarrow> Inl e
      | Inr replaced \<Rightarrow>
          if isArray kids then
            (case sequence
                    (map (\<lambda>child.
                            if child = JNull \<or> child = JUndefined then Inl TypeError
                            else convertToLoopBody child variables reveredVariables
                                   (currPath @ ''.'' @ jsString (readAny child ''name'')))
                         (elems kids)) of
               Inl e \<Rightarrow> Inl e
             | Inr kids' \<Rightarrow> Inr (JObj (setKey replaced ''children'' (JArr kids'))))
          else Inr (JObj replaced))"
  by pat_completeness auto
termination
  by (relation "measure (\<lambda>(ast, variables, table, currPath). size ast)")
    (auto dest: spread_children_size)

declare convertToLoopBody.simps [simp del]

text \<open>\<open>s.replace(pat, rep)\<close> for a string pattern: the first occurrence only.\<close>

fun replaceFirst :: "string \<Rightarrow> string \<Rightarrow> string \<Rightarrow> string" where
  "replaceFirst pat rep [] = (if pat = [] then rep else [])"
| "replaceFirst pat rep (c # cs) =
     (if startsWith (c # cs) pat then rep @ drop (length pat) (c # cs)
      else c # replaceFirst pat rep cs)"

definition markerNode :: "string \<Rightarrow> jv" where
  "markerNode name =
     JObj [(''type'', JStr ''flag''), (''name'', JStr name), (''value'', JNull),
           (''children'', JArr [])]"

definition loopOpen :: jv where
  "loopOpen = markerNode ''{% for interface in interface.physical %}''"

definition loopClose :: jv where
  "loopClose = markerNode ''{% endfor %}''"

text \<open>\<open>subgroups[0]\<close>; \<open>None\<close> also stands for \<open>undefined\<close>, which equals no index
  either.\<close>

definition firstSubgroup :: "nat option list \<Rightarrow> nat option" where
  "firstSubgroup subgroups = (case subgroups of [] \<Rightarrow> None | g # _ \<Rightarrow> g)"

text \<open>The inner \<open>reduce\<close> over \<open>original\<close>, given the rewritten representative.\<close>

definition loopArray :: "jv list \<Rightarrow> nat option list \<Rightarrow> jv \<Rightarrow> jv list" where
  "loopArray original subgroups body =
     foldl (\<lambda>acc2 (index, child).
              if Some index = firstSubgroup subgroups then acc2 @ [loopOpen, body, loopClose]
              else if Some index \<notin> set subgroups then acc2 @ [child]
              else acc2)
           [] (zip [0..<length original] original)"

text \<open>
  One step of the outer \<open>reduce\<close> of \<open>convertToJinja2Ast\<close>, on the copy \<open>acc\<close>. The
  representative is rewritten when the loop reaches its index, so only if that index
  lies in the array; a parent that is \<open>null\<close> or \<open>undefined\<close>, an \<open>original\<close>
  that is no array and a parent name that is no string raise.
\<close>

definition synthStep ::
  "(string \<times> jv) list \<Rightarrow> jv \<Rightarrow> string \<times> (string \<times> nat option) list \<Rightarrow> error + jv" where
  "synthStep variables acc entry =
     (case entry of (loopPath, changes) \<Rightarrow>
        let subgroups = uniq (map snd changes);
            parent = lodashGet acc (joinWith ''.'' (butlast (splitOn CHR ''.'' loopPath)))
        in if parent = JNull \<or> parent = JUndefined then Inl TypeError
           else
             let currPath = readAny parent ''name'';
                 original = lodashGet acc loopPath
             in if \<not> isArray original then Inl TypeError
                else
                  case firstSubgroup subgroups of
                    None \<Rightarrow> Inr (lodashSet acc loopPath
                                  (JArr (loopArray (elems original) subgroups JUndefined)))
                  | Some r \<Rightarrow>
                      if r < length (elems original) then
                        (case currPath of
                           JStr name \<Rightarrow>
                             (case convertToLoopBody (elems original ! r) variables
                                     (flattenObjectReverse variables [] [])
                                     (replaceFirst ''interfaces'' ''interface'' name) of
                                Inl e \<Rightarrow> Inl e
                              | Inr body \<Rightarrow>
                                  Inr (lodashSet acc loopPath
                                         (JArr (loopArray (elems original) subgroups body))))
                         | _ \<Rightarrow> Inl TypeError)
                      else Inr (lodashSet acc loopPath
                                  (JArr (loopArray (elems original) subgroups JUndefined))))"

text \<open>A \<open>reduce\<close> that an exception stops.\<close>

fun foldE :: "('a \<Rightarrow> 'b \<Rightarrow> 'e + 'a) \<Rightarrow> 'b list \<Rightarrow> 'a \<Rightarrow> 'e + 'a" where
  "foldE f [] acc = Inr acc"
| "foldE f (x # xs) acc = (case f acc x of Inl e \<Rightarrow> Inl e | Inr acc' \<Rightarrow> foldE f xs acc')"

text \<open>\<open>convertToJinja2Ast\<close> on values: \<open>_.cloneDeep(ast)\<close> is the value \<open>ast\<close> itself.
  The groups are visited in the order their keys were first written.\<close>

definition convertToJinja2Ast ::
  "jv \<Rightarrow> JuniperDiff list \<Rightarrow> (string \<times> jv) list \<Rightarrow> error + jv" where
  "convertToJinja2Ast ast diff variables =
     foldE (synthStep variables) (findLoopOpportunities diff) ast"

text \<open>
  The nodes \<open>convertToLoopBody\<close> cannot rewrite: a node named \<open>interface\<close> with a
  non-empty string value whose first or second dot component has no reverse lookup; and
  the values that hold such a node among their descendants.
\<close>

definition unmappedHere :: "(string \<times> string) list \<Rightarrow> jv \<Rightarrow> bool" where
  "unmappedHere table ast =
     (readProp (JObj (spread ast)) ''name'' = JStr ''interface'' \<and>
      (case readProp (JObj (spread ast)) ''value'' of
         JStr text \<Rightarrow>
           text \<noteq> [] \<and>
           (reverseLookup table (splitOn CHR ''.'' text ! 0) = None \<or>
            (1 < length (splitOn CHR ''.'' text) \<and>
             reverseLookup table (splitOn CHR ''.'' text ! 1) = None))
       | _ \<Rightarrow> False))"

function containsUnmapped :: "(string \<times> string) list \<Rightarrow> jv \<Rightarrow> bool" where
  "containsUnmapped table ast =
     (unmappedHere table ast \<or>
      list_ex (containsUnmapped table) (elems (readProp (JObj (spread ast)) ''children'')))"
  by pat_completeness auto
termination
  by (relation "measure (\<lambda>(table, ast). size ast)") (auto dest: spread_children_size)

declare containsUnmapped.simps [simp del]



section \<open>Notions used in the statements on matching\<close>

text \<open>
  Two properties of nodes that decide how the order-insensitive matching pairs them: a
  node whose descendants all carry a name, and a node \<open>x\<close> that a sibling \<open>y\<close> cannot be
  mistaken for, because \<open>y\<close> has another type, or another name, or another value where
  \<open>x\<close> has one.
\<close>

fun allNamed :: "JuniperNode \<Rightarrow> bool" where
  "allNamed (JuniperNode t n v cs) = (n \<noteq> None \<and> list_all allNamed cs)"

definition apart :: "JuniperNode \<Rightarrow> JuniperNode \<Rightarrow> bool" where
  "apart x y =
     (node_type x \<noteq> node_type y \<or>
      (node_name x \<noteq> None \<and> node_name x \<noteq> node_name y) \<or>
      (node_value x \<noteq> None \<and> node_value x \<noteq> node_value y))"

definition pairwiseApart :: "JuniperNode list \<Rightarrow> bool" where
  "pairwiseApart cs =
     list_all (\<lambda>i. list_all (\<lambda>j. i = j \<or> apart (cs ! i) (cs ! j)) [0..<length cs]) [0..<length cs]"

text \<open>The share of a name or a value in the similarity of two nodes.\<close>

definition headerCredit :: "string option \<Rightarrow> string option \<Rightarrow> rat" where
  "headerCredit a b = (if a \<noteq> None \<and> a = b then 1 else 0)"

text \<open>The body of the outer loop of the order-insensitive branch of \<open>diffAst\<close>.\<close>

definition unorderedStep ::
  "jv list \<Rightarrow> jv list \<Rightarrow> DiffOptions \<Rightarrow> nat \<Rightarrow> nat list \<times> JuniperDiff list
     \<Rightarrow> nat list \<times> JuniperDiff list" where
  "unorderedStep xs ys options =
     (\<lambda>i (matchedIndexes, out).
         let oldNode = xs ! i in
         case bestMatch oldNode ys matchedIndexes of
           (Some b, bestMatchScore) \<Rightarrow>
             if bestMatchScore > 7 / 10 then
               (matchedIndexes @ [b],
                out @ diffAst oldNode (ys ! b)
                  (childOptions options (showNat i)
                     (getAbsolutePath (absolutePath options) oldNode (showNat i))))
             else (matchedIndexes,
                   out @ [removeRecord (currentPath options) (absolutePath options) oldNode i])
         | (None, bestMatchScore) \<Rightarrow>
             (matchedIndexes,
              out @ [removeRecord (currentPath options) (absolutePath options) oldNode i]))"

section \<open>Arguments as references\<close>






section \<open>Properties of the parser\<close>

subsection \<open>One step of the parse loop\<close>















subsection \<open>Comments\<close>

text \<open>
  C6 (as the code has it). The preprocessing does not look at quotes: on a line without a
  carriage return, the first \<open>#\<close> and everything behind it is removed, whether or not the
  \<open>#\<close> stands inside a double-quoted string; a line without \<open>#\<close> is left as it is.
\<close>

theorem stripComment_cuts_at_first_hash:
  "list_all (\<lambda>d. \<not> isLineTerminator d) line \<Longrightarrow>
     stripComment line = takeWhile (\<lambda>c. c \<noteq> CHR ''#'') line"
  by (induction line) auto

theorem stripComment_cuts_at_first_hash_witness:
  "list_all (\<lambda>d. \<not> isLineTerminator d) (''description '' @ [CHR 0x22] @ ''a#b'' @ [CHR 0x22] @ '';'') \<and>
   stripComment (''description '' @ [CHR 0x22] @ ''a#b'' @ [CHR 0x22] @ '';'')
     = ''description '' @ [CHR 0x22] @ ''a''"
  using stripComment_cuts_at_first_hash
    [of "''description '' @ [CHR 0x22] @ ''a#b'' @ [CHR 0x22] @ '';''"]
  by (simp add: isLineTerminator_def)

text \<open>
  C6 as stated fails: the line \<open>description "a#b";\<close> has its only \<open>#\<close> inside a
  double-quoted string, and the preprocessing keeps \<open>description "a\<close> only; the parser then
  skips the line.
\<close>

theorem quoted_hash_is_stripped:
  "configLines (''description '' @ [CHR 0x22] @ ''a#b'' @ [CHR 0x22] @ '';'')
     = [''description '' @ [CHR 0x22] @ ''a''] \<and>
   parseJuniperConfig (''description '' @ [CHR 0x22] @ ''a#b'' @ [CHR 0x22] @ '';'')
     = (JuniperNode ''root'' None None [], [(1, ''description '' @ [CHR 0x22] @ ''a'')])"
  by code_simp

subsection \<open>Totality and diagnostics\<close>





section \<open>Properties of the differ\<close>

lemma ignoreArrayOrder_childOptions [simp]:
  "ignoreArrayOrder (childOptions opts seg np) = ignoreArrayOrder opts"
  by (simp add: childOptions_def)

lemma set_uniq [simp]: "set (uniq xs) = set xs"
  by (induction xs) auto

text \<open>With index matching, a value compared with itself yields no record, whatever the
  paths, the ignore list and the depth limit are.\<close>

lemma diffAst_same: "\<not> ignoreArrayOrder opts \<Longrightarrow> diffAst v v opts = []"
proof (induction v arbitrary: opts)
  case (JArr xs)
  then show ?case
    by (subst diffAst.simps) (simp add: Let_def)
next
  case (JObj kvs)
  have "diffAst x x o' = []" if "map_of kvs p = Some x" "\<not> ignoreArrayOrder o'" for p x o'
    using JObj.IH [of "(p, x)" x] map_of_SomeD [OF that(1)] that(2) by simp
  moreover have "\<exists>y. map_of kvs p = Some y" if "(p, x) \<in> set kvs" for p x
    using that by (metis map_of_eq_None_iff not_Some_eq fst_conv image_eqI)
  ultimately show ?case using JObj.prems
    by (subst diffAst.simps) (auto simp: Let_def split: option.splits)
qed (subst diffAst.simps, simp)+

text \<open>
  C2. Diff identity: for every tree \<open>x\<close>, \<open>diffAst(x, x)\<close> under the default options is
  the empty change list.
\<close>

theorem diffAst_identity: "diffAst (nodeJv x) (nodeJv x) defaultOptions = []"
  by (rule diffAst_same) (simp add: defaultOptions_def)

text \<open>
  C3 (as the code has it). The two texts of the scenario, the block header and the brace
  each on a line of their own, differ in exactly one record: a \<open>replace\<close> at
  \<open>children.0.children.0.value\<close> whose absolute path is \<open>unit\<close>, \<open>unit 0\<close>,
  \<open>family\<close>, \<open>value\<close>, with the old value \<open>inet\<close> and the new value \<open>inet6\<close>.
\<close>

theorem diffAst_family_scenario:
  "diffAst
     (nodeJv (fst (parseJuniperConfig
        (''unit 0 {'' @ [CHR 0x0A] @ ''    family inet;'' @ [CHR 0x0A] @ ''}''))))
     (nodeJv (fst (parseJuniperConfig
        (''unit 0 {'' @ [CHR 0x0A] @ ''    family inet6;'' @ [CHR 0x0A] @ ''}''))))
     defaultOptions
   = [\<lparr>diffType = ''replace'',
       diffPath = [''children'', ''0'', ''children'', ''0'', ''value''],
       diffAbsolutePath = [''unit'', ''unit 0'', ''family'', ''value''],
       oldValue = Some (JStr ''inet''), newValue = Some (JStr ''inet6''),
       property = None, nodeType = None, oldType = None, newType = None\<rparr>]"
  by code_simp

text \<open>
  C3 as stated fails: the absolute path of the record ends in the segment \<open>value\<close>, the
  property compared, and \<open>family\<close> comes before it. (Written on one line each, the two
  texts of the scenario are skipped by the parser and do not differ at all.)
\<close>

theorem diffAst_family_path_ends_in_value:
  "map (\<lambda>d. last (diffAbsolutePath d))
     (diffAst
        (nodeJv (fst (parseJuniperConfig
           (''unit 0 {'' @ [CHR 0x0A] @ ''    family inet;'' @ [CHR 0x0A] @ ''}''))))
        (nodeJv (fst (parseJuniperConfig
           (''unit 0 {'' @ [CHR 0x0A] @ ''    family inet6;'' @ [CHR 0x0A] @ ''}''))))
        defaultOptions)
     = [''value''] \<and>
   diffAst (nodeJv (fst (parseJuniperConfig ''unit 0 { family inet; }'')))
     (nodeJv (fst (parseJuniperConfig ''unit 0 { family inet6; }''))) defaultOptions = []"
  by code_simp


section \<open>Properties of the interface extractor\<close>

lemma addInterfaceProp_scenario:
  "addInterfaceProp [] [''interfaces'', ''ge-0/0/0'', ''unit'', ''0'', ''family''] (JStr ''inet'')
    = [[(''name'', JStr ''ge-0/0/0''), (''unit'', JObj [(''family'', JStr ''inet'')])]]"
  by code_simp

text \<open>
  C4 (as the code has it). Folding one \<open>replace\<close> record with the absolute path
  \<open>interfaces\<close>, \<open>ge-0/0/0\<close>, \<open>unit\<close>, \<open>0\<close>, \<open>family\<close> and the old value \<open>inet\<close>,
  whatever its other fields are, into the empty table gives the single entry named
  \<open>ge-0/0/0\<close>. The attribute path keeps the segments at the even positions from 2 on,
  here \<open>unit.family\<close>, and at that path the entry holds \<open>inet\<close>.
\<close>

theorem extractInterfaces_scenario:
  "extractInterfaces
     [d\<lparr>diffType := ''replace'',
        diffAbsolutePath := [''interfaces'', ''ge-0/0/0'', ''unit'', ''0'', ''family''],
        oldValue := Some (JStr ''inet'')\<rparr>]
   = [[(''name'', JStr ''ge-0/0/0''), (''unit'', JObj [(''family'', JStr ''inet'')])]] \<and>
   normalizedPath [''interfaces'', ''ge-0/0/0'', ''unit'', ''0'', ''family''] = ''unit.family'' \<and>
   lodashGet (JObj [(''name'', JStr ''ge-0/0/0''), (''unit'', JObj [(''family'', JStr ''inet'')])])
     ''unit.family'' = JStr ''inet''"
proof -
  have "normalizedPath [''interfaces'', ''ge-0/0/0'', ''unit'', ''0'', ''family''] = ''unit.family''"
    by code_simp
  moreover have
    "lodashGet (JObj [(''name'', JStr ''ge-0/0/0''), (''unit'', JObj [(''family'', JStr ''inet'')])])
       ''unit.family'' = JStr ''inet''"
    by code_simp
  ultimately show ?thesis
    by (simp add: extractInterfaces_def addInterfaceProp_scenario)
qed

text \<open>
  C4 as stated fails: the segment \<open>0\<close> stands at an odd position and is dropped, so the
  entry has nothing at \<open>unit.0.family\<close>.
\<close>

theorem extractInterfaces_scenario_no_unit_0_family:
  "map (\<lambda>e. lodashGet (JObj e) ''unit.0.family'')
     (extractInterfaces
        [(mkDiff ''replace'' [] [''interfaces'', ''ge-0/0/0'', ''unit'', ''0'', ''family''])
           \<lparr>oldValue := Some (JStr ''inet'')\<rparr>])
   = [JUndefined]"
  by code_simp

section \<open>Properties of the synthesizer\<close>

subsection \<open>A missing reverse lookup raises\<close>

lemma zip_upt_nth: "zip [0..<length xs] xs = map (\<lambda>i. (i, xs ! i)) [0..<length xs]"
  by (rule nth_equalityI) auto

lemma error_is_TypeError: "(e :: error) = TypeError"
  by (cases e)

lemma sequence_Inl: "Inl e \<in> set xs \<Longrightarrow> sequence xs = Inl TypeError"
proof (induction xs)
  case Nil
  then show ?case by simp
next
  case (Cons x xs)
  show ?case
  proof (cases x)
    case (Inl e')
    then show ?thesis using error_is_TypeError [of e'] by simp
  next
    case (Inr a)
    then have "sequence xs = Inl TypeError" using Cons by auto
    then show ?thesis using Inr by simp
  qed
qed

lemma replaceOwn_unmapped:
  assumes "unmappedHere table ast"
  shows "replaceOwn (spread ast) variables table currPath = Inl TypeError"
proof -
  obtain str where n: "readProp (JObj (spread ast)) ''name'' = JStr ''interface''"
    and v: "readProp (JObj (spread ast)) ''value'' = JStr str" "str \<noteq> []"
    and m: "reverseLookup table (splitOn CHR ''.'' str ! 0) = None \<or>
            (1 < length (splitOn CHR ''.'' str) \<and> reverseLookup table (splitOn CHR ''.'' str ! 1) = None)"
    using assms by (auto simp: unmappedHere_def split: jv.splits)
  let ?parts = "splitOn CHR ''.'' str"
  have ne: "0 < length ?parts" by (cases str) (auto simp: Let_def)
  obtain i where i: "i < length ?parts" "replaceComponent table i (?parts ! i) = Inl TypeError"
  proof (cases "reverseLookup table (?parts ! 0) = None")
    case True
    then have "replaceComponent table 0 (?parts ! 0) = Inl TypeError"
      by (simp add: replaceComponent_def)
    then show ?thesis using ne that by blast
  next
    case False
    then have "1 < length ?parts" "replaceComponent table 1 (?parts ! 1) = Inl TypeError"
      using m by (auto simp: replaceComponent_def)
    then show ?thesis using that by blast
  qed
  have "(i, ?parts ! i) \<in> set (zip [0..<length ?parts] ?parts)"
    using i(1) by (simp add: zip_upt_nth)
  then have "Inl TypeError \<in> set (map (\<lambda>(index, part). replaceComponent table index part)
                                    (zip [0..<length ?parts] ?parts))"
    using i(2) by force
  then have "sequence (map (\<lambda>(index, part). replaceComponent table index part)
                          (zip [0..<length ?parts] ?parts)) = Inl TypeError"
    by (rule sequence_Inl)
  then show ?thesis using n v by (simp add: replaceOwn_def Let_def)
qed

text \<open>
  C10. \<open>convertToJinja2Ast\<close> is not total. If the value a node is rewritten from holds,
  at any depth, a node named \<open>interface\<close> with a non-empty string value whose first dot
  component, or whose second one, is found neither among the leaf values of the
  substitution table nor among the members every object inherits, then
  \<open>convertToLoopBody\<close> raises a \<open>TypeError\<close>: it calls \<open>toString\<close> on the
  \<open>undefined\<close> the reverse lookup returns.
\<close>

theorem convertToLoopBody_unmapped_raises:
  "containsUnmapped table ast \<Longrightarrow> convertToLoopBody ast variables table currPath = Inl TypeError"
proof (induction ast arbitrary: currPath rule: containsUnmapped.induct)
  case (1 table ast)
  let ?kids = "readProp (JObj (spread ast)) ''children''"
  show ?case
  proof (cases "unmappedHere table ast")
    case True
    then show ?thesis
      by (subst convertToLoopBody.simps) (simp add: replaceOwn_unmapped)
  next
    case False
    then obtain child where c: "child \<in> set (elems ?kids)" "containsUnmapped table child"
      using "1.prems" by (subst (asm) containsUnmapped.simps) (auto simp: list_ex_iff)
    have arr: "isArray ?kids" using c(1) by (cases ?kids) auto
    have "convertToLoopBody child variables table p = Inl TypeError" for p
      using "1.IH" [OF c(1) c(2)] .
    then have "Inl TypeError \<in> set (map (\<lambda>child.
                            if child = JNull \<or> child = JUndefined then Inl TypeError
                            else convertToLoopBody child variables table
                                   (currPath @ ''.'' @ jsString (readAny child ''name'')))
                         (elems ?kids))"
      using c(1) by (auto simp: image_iff intro!: bexI [of _ child])
    then have "sequence (map (\<lambda>child.
                            if child = JNull \<or> child = JUndefined then Inl TypeError
                            else convertToLoopBody child variables table
                                   (currPath @ ''.'' @ jsString (readAny child ''name'')))
                         (elems ?kids)) = Inl TypeError"
      by (rule sequence_Inl)
    then show ?thesis using arr
      by (subst convertToLoopBody.simps) (simp add: Let_def error_is_TypeError split: sum.splits)
  qed
qed

theorem convertToLoopBody_unmapped_raises_witness:
  "containsUnmapped
     (flattenObjectReverse [(''interface'', JObj [(''name'', JStr ''ge-0/0/0'')])] [] [])
     (nodeJv (JuniperNode ''directive'' (Some ''interface'') (Some ''ge-0/0/0.100'') [])) \<and>
   convertToLoopBody
     (nodeJv (JuniperNode ''directive'' (Some ''interface'') (Some ''ge-0/0/0.100'') []))
     [(''interface'', JObj [(''name'', JStr ''ge-0/0/0'')])]
     (flattenObjectReverse [(''interface'', JObj [(''name'', JStr ''ge-0/0/0'')])] [] [])
     ''protocols'' = Inl TypeError \<and>
   convertToJinja2Ast
     (nodeJv (fst (parseJuniperConfig
        (''protocols {'' @ [CHR 0x0A] @ ''    interface ge-0/0/0.100;'' @ [CHR 0x0A] @ ''}''))))
     [mkDiff ''replace'' [''children'', ''0'', ''children'', ''0'', ''value''] []]
     [(''interface'', JObj [(''name'', JStr ''ge-0/0/0'')])] = Inl TypeError"
proof -
  have c: "containsUnmapped
     (flattenObjectReverse [(''interface'', JObj [(''name'', JStr ''ge-0/0/0'')])] [] [])
     (nodeJv (JuniperNode ''directive'' (Some ''interface'') (Some ''ge-0/0/0.100'') []))"
    by code_simp
  have j: "convertToJinja2Ast
     (nodeJv (fst (parseJuniperConfig
        (''protocols {'' @ [CHR 0x0A] @ ''    interface ge-0/0/0.100;'' @ [CHR 0x0A] @ ''}''))))
     [mkDiff ''replace'' [''children'', ''0'', ''children'', ''0'', ''value''] []]
     [(''interface'', JObj [(''name'', JStr ''ge-0/0/0'')])] = Inl TypeError"
    by code_simp
  show ?thesis
    using c j convertToLoopBody_unmapped_raises [OF c] by simp
qed



subsection \<open>The array a loop group is replaced with\<close>






lemma map_of_setKey_same [simp]: "map_of (setKey kvs k v) k = Some v"
  by (induction kvs) auto

lemma map_of_setKey_other [simp]: "k' \<noteq> k \<Longrightarrow> map_of (setKey kvs k v) k' = map_of kvs k'"
  by (induction kvs) auto








lemma splitOn_nonempty [simp]: "splitOn c s \<noteq> []"
  by (cases s) (auto simp: Let_def)

lemma castPath_nonempty [simp]: "castPath p obj \<noteq> []"
  by (simp add: castPath_def)











section \<open>Which arguments a call writes\<close>








section \<open>Order-insensitive matching\<close>

subsection \<open>The similarity of two nodes\<close>

lemma valueCredit_optJv: "valueCredit (optJv a) (optJv b) = headerCredit a b"
  by (cases a; cases b) (simp_all add: valueCredit_def optJv_def headerCredit_def)

lemma calculateSimilarity_nodes:
  "calculateSimilarity (nodeJv x) (nodeJv y) =
     (if node_type x \<noteq> node_type y then 1 / 10
      else 1 / 2 + 1 / 4 * (headerCredit (node_name x) (node_name y)
                            + headerCredit (node_value x) (node_value y)))"
proof -
  obtain t n v cs where x: "x = JuniperNode t n v cs" by (cases x)
  obtain t' n' v' cs' where y: "y = JuniperNode t' n' v' cs'" by (cases y)
  have os: "objectSimilarity
              (JObj [(''type'', JStr a), (''name'', optJv n), (''value'', optJv v),
                     (''children'', JArr (map nodeJv cs))])
              (JObj [(''type'', JStr b), (''name'', optJv n'), (''value'', optJv v'),
                     (''children'', JArr (map nodeJv cs'))])
              = 1 / 2 + 1 / 4 * (headerCredit n n' + headerCredit v v')" for a b
    by (simp add: objectSimilarity_def readProp_def valueCredit_optJv)
  show ?thesis
    unfolding x y
    by (subst calculateSimilarity.simps) (simp add: readProp_def os)
qed

subsection \<open>The inner loop finds the first best candidate\<close>

lemma bestMatch_first_max:
  assumes t: "t < length ys" "t \<notin> set M"
    and before: "\<And>j. j < t \<Longrightarrow> j \<notin> set M \<Longrightarrow>
                   calculateSimilarity L (ys ! j) < calculateSimilarity L (ys ! t)"
    and behind: "\<And>j. t < j \<Longrightarrow> j < length ys \<Longrightarrow> j \<notin> set M \<Longrightarrow>
                   calculateSimilarity L (ys ! j) \<le> calculateSimilarity L (ys ! t)"
    and pos: "- 1 < calculateSimilarity L (ys ! t)"
  shows "bestMatch L ys M = (Some t, calculateSimilarity L (ys ! t))"
proof -
  define s where "s = calculateSimilarity L (ys ! t)"
  define f where "f = (\<lambda>j (bestMatchIndex :: nat option, bestMatchScore).
             if j \<in> set M then (bestMatchIndex, bestMatchScore)
             else
               let similarityScore = calculateSimilarity L (ys ! j)
               in if similarityScore > bestMatchScore then (Some j, similarityScore)
                  else (bestMatchIndex, bestMatchScore))"
  have phase1: "k \<le> t \<Longrightarrow> snd (fold f [0..<k] (None, - 1)) < s" for k
  proof (induction k)
    case 0
    then show ?case using pos by (simp add: s_def)
  next
    case (Suc k)
    obtain bi bs where st: "fold f [0..<k] (None, - 1) = (bi, bs)"
      by (cases "fold f [0..<k] (None, - 1)")
    have "bs < s" using Suc st by simp
    moreover have "k \<notin> set M \<Longrightarrow> calculateSimilarity L (ys ! k) < s"
      using before [of k] Suc.prems by (simp add: s_def)
    ultimately show ?case using st by (simp add: f_def Let_def)
  qed
  have phase3: "list_all (\<lambda>j. j \<in> set M \<or> calculateSimilarity L (ys ! j) \<le> s) js \<Longrightarrow>
                fold f js (Some t, s) = (Some t, s)" for js
  proof (induction js)
    case Nil
    then show ?case by simp
  next
    case (Cons j js)
    then have "f j (Some t, s) = (Some t, s)" by (auto simp: f_def Let_def)
    then show ?case using Cons by simp
  qed
  obtain bi bs where st: "fold f [0..<t] (None, - 1) = (bi, bs)"
    by (cases "fold f [0..<t] (None, - 1)")
  have "bs < s" using phase1 [of t] st by simp
  then have at: "f t (bi, bs) = (Some t, s)"
    using t(2) by (simp add: f_def Let_def s_def)
  have split: "[0..<length ys] = [0..<t] @ t # [Suc t..<length ys]"
    using t(1) by (metis le_add1 less_imp_le_nat plus_nat.add_0 upt_add_eq_append upt_conv_Cons
        le_Suc_ex)
  have "fold f [0..<length ys] (None, - 1) = fold f [Suc t..<length ys] (Some t, s)"
    by (simp add: split st at)
  also have "\<dots> = (Some t, s)"
  proof (rule phase3)
    have "j \<in> set M \<or> calculateSimilarity L (ys ! j) \<le> s"
      if "j \<in> set [Suc t..<length ys]" for j
      using behind [of j] that by (auto simp: s_def)
    then show "list_all (\<lambda>j. j \<in> set M \<or> calculateSimilarity L (ys ! j) \<le> s)
                 [Suc t..<length ys]"
      unfolding list_all_iff by blast
  qed
  finally show ?thesis by (simp add: bestMatch_def f_def s_def)
qed

subsection \<open>The outer loop when every element finds its partner\<close>

lemma diffAst_unordered:
  "ignoreArrayOrder options \<Longrightarrow>
   diffAst (JArr xs) (JArr ys) options =
     (case fold (unorderedStep xs ys options) [0..<length xs] ([], []) of
        (matchedIndexes, out) \<Rightarrow>
          out @ concat (map (\<lambda>j. if j \<notin> set matchedIndexes
                                    then [addRecord (currentPath options) (absolutePath options)
                                            (ys ! j) j]
                                    else [])
                          [0..<length ys]))"
  by (subst diffAst.simps) (simp add: Let_def unorderedStep_def)

lemma unordered_all_matched:
  assumes len: "length ys = length xs"
    and range: "\<And>i. i < length xs \<Longrightarrow> \<pi> i < length xs"
    and inj: "inj_on \<pi> {..<length xs}"
    and best: "\<And>i. i < length xs \<Longrightarrow>
                 \<exists>s. bestMatch (xs ! i) ys (map \<pi> [0..<i]) = (Some (\<pi> i), s) \<and> 7 / 10 < s"
    and same: "\<And>i o'. i < length xs \<Longrightarrow> ignoreArrayOrder o' \<Longrightarrow>
                 diffAst (xs ! i) (ys ! \<pi> i) o' = []"
    and opts: "ignoreArrayOrder options"
  shows "diffAst (JArr xs) (JArr ys) options = []"
proof -
  have loop: "k \<le> length xs \<Longrightarrow>
              fold (unorderedStep xs ys options) [0..<k] ([], []) = (map \<pi> [0..<k], [])" for k
  proof (induction k)
    case 0
    then show ?case by simp
  next
    case (Suc k)
    then have k: "k < length xs" by simp
    obtain s where s: "bestMatch (xs ! k) ys (map \<pi> [0..<k]) = (Some (\<pi> k), s)" "7 / 10 < s"
      using best [OF k] by blast
    have "unorderedStep xs ys options k (map \<pi> [0..<k], []) = (map \<pi> [0..<k] @ [\<pi> k], [])"
      using s same [OF k] opts by (simp add: unorderedStep_def Let_def)
    then show ?case using Suc by simp
  qed
  have "\<pi> ` {..<length xs} = {..<length xs}"
    using inj range by (intro endo_inj_surj) auto
  then have all: "set (map \<pi> [0..<length xs]) = {..<length xs}"
    by (simp add: atLeast0LessThan)
  have "concat (map (\<lambda>j. if j \<notin> set (map \<pi> [0..<length xs])
                           then [addRecord (currentPath options) (absolutePath options) (ys ! j) j]
                           else [])
                  [0..<length ys]) = []"
    unfolding all using len by simp
  then show ?thesis
    using loop [of "length xs"] by (simp add: diffAst_unordered [OF opts])
qed

subsection \<open>Named trees\<close>

lemma headerCredit_le_self: "headerCredit a b \<le> headerCredit a a"
  by (simp add: headerCredit_def)

lemma similarity_le_self:
  "calculateSimilarity (nodeJv x) (nodeJv y) \<le> calculateSimilarity (nodeJv x) (nodeJv x)"
proof -
  have "0 \<le> headerCredit (node_name x) (node_name x)" "0 \<le> headerCredit (node_value x) (node_value x)"
    by (simp_all add: headerCredit_def)
  then show ?thesis
    using headerCredit_le_self [of "node_name x" "node_name y"]
      headerCredit_le_self [of "node_value x" "node_value y"]
    by (simp add: calculateSimilarity_nodes)
qed

lemma similarity_self_named:
  "node_name x \<noteq> None \<Longrightarrow> 7 / 10 < calculateSimilarity (nodeJv x) (nodeJv x)"
  by (simp add: calculateSimilarity_nodes headerCredit_def)

lemma similarity_apart:
  assumes "apart x y"
  shows "calculateSimilarity (nodeJv x) (nodeJv y) < calculateSimilarity (nodeJv x) (nodeJv x)"
proof (cases "node_type x = node_type y")
  case False
  define a b where "a = headerCredit (node_name x) (node_name x)"
    and "b = headerCredit (node_value x) (node_value x)"
  have "0 \<le> a" "0 \<le> b" by (simp_all add: headerCredit_def a_def b_def)
  then have "0 \<le> 1 / 4 * (a + b)" by simp
  moreover have "(1 / 10 :: rat) < 1 / 2" by simp
  ultimately have less: "(1 / 10 :: rat) < 1 / 2 + 1 / 4 * (a + b)"
    by (rule_tac order_less_le_trans [of _ "1 / 2"]) auto
  have xy: "calculateSimilarity (nodeJv x) (nodeJv y) = 1 / 10"
    using False by (simp only: calculateSimilarity_nodes simp_thms if_True)
  have xx: "calculateSimilarity (nodeJv x) (nodeJv x) = 1 / 2 + 1 / 4 * (a + b)"
    by (simp only: calculateSimilarity_nodes a_def b_def simp_thms if_False)
  show ?thesis unfolding xy xx by (rule less)
next
  case True
  then have "headerCredit (node_name x) (node_name y) + headerCredit (node_value x) (node_value y)
               < headerCredit (node_name x) (node_name x) + headerCredit (node_value x) (node_value x)"
    using assms by (auto simp: apart_def headerCredit_def)
  then show ?thesis using True by (simp add: calculateSimilarity_nodes)
qed

lemma diffAst_primitive_same: "\<not> isObject v \<Longrightarrow> diffAst v v options = []"
  by (cases v) ((subst diffAst.simps, simp add: isObject_def)+)

lemma diffAst_object_same:
  assumes "\<And>k v o'. map_of kvs k = Some v \<Longrightarrow> ignoreArrayOrder o' = ignoreArrayOrder options \<Longrightarrow>
             diffAst v v o' = []"
  shows "diffAst (JObj kvs) (JObj kvs) options = []"
proof -
  have "\<exists>y. map_of kvs p = Some y" if "(p, x) \<in> set kvs" for p x
    using that by (metis map_of_eq_None_iff not_Some_eq fst_conv image_eqI)
  then show ?thesis using assms
    by (subst diffAst.simps) (auto simp: Let_def split: option.splits)
qed

lemma diffAst_named_same:
  "allNamed x \<Longrightarrow> ignoreArrayOrder options \<Longrightarrow> diffAst (nodeJv x) (nodeJv x) options = []"
proof (induction x arbitrary: options)
  case (JuniperNode t n v cs)
  let ?kids = "map nodeJv cs"
  have named: "\<And>i. i < length cs \<Longrightarrow> allNamed (cs ! i)"
    using JuniperNode.prems(1) by (simp add: list_all_length)
  have kids: "diffAst (JArr ?kids) (JArr ?kids) o' = []" if o': "ignoreArrayOrder o'" for o'
  proof (rule unordered_all_matched [where \<pi> = id])
    fix i assume i: "i < length ?kids"
    have nm: "node_name (cs ! i) \<noteq> None" using named [of i] i by (cases "cs ! i") auto
    have "bestMatch (?kids ! i) ?kids (map id [0..<i])
            = (Some i, calculateSimilarity (?kids ! i) (?kids ! i))"
    proof (rule bestMatch_first_max)
      show "- 1 < calculateSimilarity (?kids ! i) (?kids ! i)"
        using similarity_self_named [OF nm] i by simp
      show "calculateSimilarity (?kids ! i) (?kids ! j) \<le> calculateSimilarity (?kids ! i) (?kids ! i)"
        if "j < length ?kids" for j
        using similarity_le_self [of "cs ! i" "cs ! j"] i that by simp
    qed (use i in auto)
    then show "\<exists>s. bestMatch (?kids ! i) ?kids (map id [0..<i]) = (Some (id i), s) \<and> 7 / 10 < s"
      using similarity_self_named [OF nm] i by simp
    show "diffAst (?kids ! i) (?kids ! id i) p = []" if "ignoreArrayOrder p" for p
      using JuniperNode.IH [of "cs ! i" p] named [of i] i that by simp
  qed (use o' in auto)
  show ?case
  proof (simp only: nodeJv.simps, rule diffAst_object_same)
    fix k w and o' :: DiffOptions
    assume m: "map_of [(''type'', JStr t), (''name'', optJv n), (''value'', optJv v),
                       (''children'', JArr ?kids)] k = Some w"
      and o': "ignoreArrayOrder o' = ignoreArrayOrder options"
    then consider "w = JStr t" | "w = optJv n" | "w = optJv v" | "w = JArr ?kids"
      by (auto split: if_splits)
    then show "diffAst w w o' = []"
    proof cases
      case 4
      then show ?thesis using kids [of o'] o' JuniperNode.prems(2) by simp
    qed (auto simp: diffAst_primitive_same isObject_def optJv_def split: option.splits)
  qed
qed

subsection \<open>Reordered arrays\<close>

lemma apart_irrefl: "\<not> apart x x"
  by (simp add: apart_def)

text \<open>
  C9 (as the code has it). Take an array of nodes in which every node, at any depth, has a
  name and in which no element can be mistaken for another one (they differ in type, in
  name, or in a value the first of them has). Diffing it with \<open>ignoreArrayOrder\<close> against
  any reordering of itself, its reverse among them, gives no record at all, so no \<open>add\<close> and
  no \<open>remove\<close>: every element on the left is paired with its own copy on the right, which
  is the unmatched element with the highest score, and that score is above the threshold.
\<close>

theorem diffAst_reordered_named:
  assumes named: "list_all allNamed cs" and apart: "pairwiseApart cs"
    and len: "length cs' = length cs" and set: "set cs' = set cs"
    and opts: "ignoreArrayOrder options"
  shows "diffAst (JArr (map nodeJv cs)) (JArr (map nodeJv cs')) options = []"
proof -
  define n where "n = length cs"
  have ap: "apart (cs ! i) (cs ! j)" if "i < n" "j < n" "i \<noteq> j" for i j
    using apart that unfolding pairwiseApart_def list_all_iff n_def by fastforce
  have dist: "distinct cs"
    unfolding distinct_conv_nth using ap apart_irrefl by (metis n_def)
  have "card (set cs') = length cs'"
    using dist len set by (simp add: distinct_card)
  then have dist': "distinct cs'" by (rule card_distinct)
  define \<pi> where "\<pi> i = (THE j. j < n \<and> cs' ! j = cs ! i)" for i
  have pi: "\<pi> i < n \<and> cs' ! \<pi> i = cs ! i" if "i < n" for i
  proof -
    have "cs ! i \<in> set cs'" using that set by (simp add: n_def)
    then obtain j where j: "j < n" "cs' ! j = cs ! i"
      using len by (auto simp: in_set_conv_nth n_def)
    have uniq: "j' = j" if "j' < n \<and> cs' ! j' = cs ! i" for j'
      using that j dist' len by (metis n_def nth_eq_iff_index_eq)
    have "\<pi> i = j"
      unfolding \<pi>_def
    proof (rule the_equality)
      show "j < n \<and> cs' ! j = cs ! i" using j by simp
      show "j' = j" if "j' < n \<and> cs' ! j' = cs ! i" for j' using that by (rule uniq)
    qed
    then show ?thesis using j by simp
  qed
  have inj: "inj_on \<pi> {..<n}"
  proof (rule inj_onI)
    fix i k assume "i \<in> {..<n}" "k \<in> {..<n}" "\<pi> i = \<pi> k"
    then have "cs ! i = cs ! k" using pi [of i] pi [of k] by simp
    then show "i = k"
      using dist \<open>i \<in> {..<n}\<close> \<open>k \<in> {..<n}\<close> by (metis lessThan_iff n_def nth_eq_iff_index_eq)
  qed
  let ?xs = "map nodeJv cs" and ?ys = "map nodeJv cs'"
  have nm: "node_name (cs ! i) \<noteq> None \<and> allNamed (cs ! i)" if "i < n" for i
    using named that by (cases "cs ! i") (auto simp: list_all_length n_def)
  show ?thesis
  proof (rule unordered_all_matched [where \<pi> = \<pi>])
    show "length ?ys = length ?xs" using len by simp
    show "\<pi> i < length ?xs" if "i < length ?xs" for i using pi [of i] that by (simp add: n_def)
    show "inj_on \<pi> {..<length ?xs}" using inj by (simp add: n_def)
    show "ignoreArrayOrder options" by (rule opts)
  next
    fix i and o' :: DiffOptions
    assume "i < length ?xs" "ignoreArrayOrder o'"
    then show "diffAst (?xs ! i) (?ys ! \<pi> i) o' = []"
      using pi [of i] nm [of i] len diffAst_named_same by (simp add: n_def)
  next
    fix i assume "i < length ?xs"
    then have i: "i < n" by (simp add: n_def)
    have twin: "?ys ! \<pi> i = nodeJv (cs ! i)" using pi [OF i] len by (simp add: n_def)
    have other: "calculateSimilarity (?xs ! i) (?ys ! j) < calculateSimilarity (?xs ! i) (?ys ! \<pi> i)"
      if j: "j < n" "j \<noteq> \<pi> i" for j
    proof -
      have "cs' ! j \<in> set cs'" using j(1) len by (simp add: n_def)
      then have "cs' ! j \<in> set cs" using set by simp
      then obtain k where k: "k < n" "cs ! k = cs' ! j"
        by (auto simp: in_set_conv_nth n_def)
      have "cs' ! j \<noteq> cs' ! \<pi> i"
        using j pi [OF i] dist' len by (metis n_def nth_eq_iff_index_eq)
      then have "k \<noteq> i" using k pi [OF i] by auto
      then have "apart (cs ! i) (cs' ! j)" using ap [OF i k(1)] k(2) by simp
      then show ?thesis
        using similarity_apart [of "cs ! i" "cs' ! j"] twin i j(1) len by (simp add: n_def)
    qed
    have self: "7 / 10 < calculateSimilarity (?xs ! i) (?ys ! \<pi> i)"
      using similarity_self_named [of "cs ! i"] nm [OF i] twin i by (simp add: n_def)
    have "bestMatch (?xs ! i) ?ys (map \<pi> [0..<i])
            = (Some (\<pi> i), calculateSimilarity (?xs ! i) (?ys ! \<pi> i))"
    proof (rule bestMatch_first_max)
      show "\<pi> i < length ?ys" using pi [OF i] len by (simp add: n_def)
      show "\<pi> i \<notin> set (map \<pi> [0..<i])"
      proof
        assume "\<pi> i \<in> set (map \<pi> [0..<i])"
        then obtain k where "k < i" "\<pi> k = \<pi> i" by auto
        then show False using inj i by (auto simp: inj_on_def)
      qed
      show "- 1 < calculateSimilarity (?xs ! i) (?ys ! \<pi> i)" using self by simp
      show "calculateSimilarity (?xs ! i) (?ys ! j) < calculateSimilarity (?xs ! i) (?ys ! \<pi> i)"
        if "j < \<pi> i" for j
        using other [of j] that pi [OF i] by simp
      show "calculateSimilarity (?xs ! i) (?ys ! j) \<le> calculateSimilarity (?xs ! i) (?ys ! \<pi> i)"
        if "\<pi> i < j" "j < length ?ys" for j
        using other [of j] that len by (simp add: n_def less_imp_le)
    qed
    then show "\<exists>s. bestMatch (?xs ! i) ?ys (map \<pi> [0..<i]) = (Some (\<pi> i), s) \<and> 7 / 10 < s"
      using self by simp
  qed
qed


theorem diffAst_reordered_named_witness:
  "diffAst
     (JArr (map nodeJv [JuniperNode ''named-block'' (Some ''unit'') (Some ''0'') [JuniperNode ''directive'' (Some ''family'') (Some ''inet'') []],
                        JuniperNode ''named-block'' (Some ''unit'') (Some ''1'') [JuniperNode ''directive'' (Some ''family'') (Some ''inet6'') []]]))
     (JArr (map nodeJv (rev [JuniperNode ''named-block'' (Some ''unit'') (Some ''0'') [JuniperNode ''directive'' (Some ''family'') (Some ''inet'') []],
                             JuniperNode ''named-block'' (Some ''unit'') (Some ''1'') [JuniperNode ''directive'' (Some ''family'') (Some ''inet6'') []]])))
     (defaultOptions\<lparr>ignoreArrayOrder := True\<rparr>) = []"
proof -
  let ?cs = "[JuniperNode ''named-block'' (Some ''unit'') (Some ''0'') [JuniperNode ''directive'' (Some ''family'') (Some ''inet'') []],
              JuniperNode ''named-block'' (Some ''unit'') (Some ''1'') [JuniperNode ''directive'' (Some ''family'') (Some ''inet6'') []]]"
  have named: "list_all allNamed ?cs" by simp
  have apart: "pairwiseApart ?cs" by code_simp
  have len: "length (rev ?cs) = length ?cs" by (rule length_rev)
  have set: "set (rev ?cs) = set ?cs" by (rule set_rev)
  have opts: "ignoreArrayOrder (defaultOptions\<lparr>ignoreArrayOrder := True\<rparr>)" by simp
  show ?thesis
    by (rule diffAst_reordered_named [OF named apart len set opts])
qed

text \<open>
  C9 as stated fails where two siblings have the same header and different bodies: each
  scores as high against the other as against itself, the first candidate wins, and the
  bodies are then diffed against each other. The two blocks \<open>x { a; }\<close> and
  \<open>x { a; b; }\<close> against the same two in the other order give an \<open>add\<close> and a
  \<open>remove\<close>.
\<close>

theorem reordered_twins_add_and_remove:
  "node_children (fst (parseJuniperConfig (''x {'' @ [CHR 0x0A] @ ''    a;'' @ [CHR 0x0A] @ ''    b;'' @ [CHR 0x0A] @ ''}'' @ [CHR 0x0A] @ ''x {'' @ [CHR 0x0A] @ ''    a;'' @ [CHR 0x0A] @ ''}'')))
     = rev (node_children (fst (parseJuniperConfig (''x {'' @ [CHR 0x0A] @ ''    a;'' @ [CHR 0x0A] @ ''}'' @ [CHR 0x0A] @ ''x {'' @ [CHR 0x0A] @ ''    a;'' @ [CHR 0x0A] @ ''    b;'' @ [CHR 0x0A] @ ''}'')))) \<and>
   map diffType
     (diffAst
        (JArr (map nodeJv (node_children (fst (parseJuniperConfig (''x {'' @ [CHR 0x0A] @ ''    a;'' @ [CHR 0x0A] @ ''}'' @ [CHR 0x0A] @ ''x {'' @ [CHR 0x0A] @ ''    a;'' @ [CHR 0x0A] @ ''    b;'' @ [CHR 0x0A] @ ''}''))))))
        (JArr (map nodeJv (node_children (fst (parseJuniperConfig (''x {'' @ [CHR 0x0A] @ ''    a;'' @ [CHR 0x0A] @ ''    b;'' @ [CHR 0x0A] @ ''}'' @ [CHR 0x0A] @ ''x {'' @ [CHR 0x0A] @ ''    a;'' @ [CHR 0x0A] @ ''}''))))))
        (defaultOptions\<lparr>ignoreArrayOrder := True\<rparr>))
     = [''add'', ''remove'']"
  by code_simp


end
